theory Spec2Isabelle
  imports Main "HOL-Library.Sublist"
begin

section \<open>The wizard of src/index.tsx\<close>

text \<open>
  The file defines one React component, \<^verbatim>\<open>WizardContextProvider\<close>, and one hook,
  \<^verbatim>\<open>useWizardContext\<close>. The component holds a reducer over a list of steps and a
  current location, and an effect that turns every change of the current location into
  one call of a callback of the host. Everything the closures of the component read
  (the props and what \<^verbatim>\<open>useNavigation()\<close> returned in this render) is a record that
  the functions below take as their first argument.
\<close>

subsection \<open>Values, steps, state and actions\<close>

text \<open>
  A step's state and an action's payload have the TypeScript type \<^verbatim>\<open>any\<close>. The code
  tells apart only \<^verbatim>\<open>null\<close> (the state of a fresh step), \<^verbatim>\<open>undefined\<close> (what
  \<^verbatim>\<open>steps[i]?.state\<close> gives when there is no such step) and instances of
  \<^verbatim>\<open>Error\<close>; every other value is opaque.
\<close>

datatype 'a jsval = JsNull | JsUndefined | JsError string | JsValue 'a

fun instanceof_Error :: "'a jsval \<Rightarrow> bool" where
  "instanceof_Error (JsError m) = True"
| "instanceof_Error v = False"

definition WIZARD_COMPLETE :: string where
  "WIZARD_COMPLETE = ''@Wizard/complete''"

definition WIZARD_CANCEL :: string where
  "WIZARD_CANCEL = ''@Wizard/cancel''"

text \<open>
  The enum \<^verbatim>\<open>WizardAction\<close> with the payload of each action creator. The switch of the
  reducer has a default branch, for an action whose type is none of the three:
  \<open>unhandled\<close> carries that type and the payload.
\<close>

datatype 'a WizardAction =
    nextStep "'a jsval"
  | previousStep "'a jsval"
  | reset "string list"
  | unhandled string "'a jsval"

record 'a WizardStep =
  key :: string
  state :: "'a jsval"
  nextButtonIntlKey :: string

record 'a WizardState =
  steps :: "'a WizardStep list"
  currentLocation :: string

text \<open>
  What the closures of one render read: the props \<^verbatim>\<open>steps\<close> (renamed
  \<^verbatim>\<open>wizardSteps\<close> in the component), \<^verbatim>\<open>nextIntlKey\<close> and \<^verbatim>\<open>completeIntlKey\<close>,
  and \<^verbatim>\<open>location.pathname\<close> and \<^verbatim>\<open>matchUrl\<close> of the navigation.
\<close>

record Scope =
  wizardSteps :: "string list"
  nextIntlKey :: string
  completeIntlKey :: string
  pathname :: string
  matchUrl :: string

subsection \<open>The JavaScript library functions the component calls\<close>

text \<open>
  \<^verbatim>\<open>s.replace(pat, rep)\<close> with a string pattern replaces the first occurrence of
  \<open>pat\<close> in \<open>s\<close>, wherever it is, and leaves \<open>s\<close> alone when there is none. (The
  replacement used here is the empty string, which has no \<^verbatim>\<open>$\<close> pattern.)
\<close>

fun replace_first :: "string \<Rightarrow> string \<Rightarrow> string \<Rightarrow> string" where
  "replace_first pat rep [] = (if pat = [] then rep else [])"
| "replace_first pat rep (c # cs) =
     (if prefix pat (c # cs) then rep @ drop (length pat) (c # cs)
      else c # replace_first pat rep cs)"

text \<open>
  \<^verbatim>\<open>xs.findIndex(p)\<close>: the index of the first element that satisfies \<open>p\<close>, and
  \<open>-1\<close> when there is none. \<open>findIndex_from\<close> is the loop, with its counter.
\<close>

fun findIndex_from :: "nat \<Rightarrow> ('a \<Rightarrow> bool) \<Rightarrow> 'a list \<Rightarrow> int" where
  "findIndex_from k p [] = - 1"
| "findIndex_from k p (x # xs) = (if p x then int k else findIndex_from (Suc k) p xs)"

definition findIndex :: "('a \<Rightarrow> bool) \<Rightarrow> 'a list \<Rightarrow> int" where
  "findIndex p xs = findIndex_from 0 p xs"

text \<open>\<^verbatim>\<open>xs.map((x, index) => f(x, index))\<close>, the callback reading the index.\<close>

fun map_index_from :: "nat \<Rightarrow> ('a \<Rightarrow> nat \<Rightarrow> 'b) \<Rightarrow> 'a list \<Rightarrow> 'b list" where
  "map_index_from k f [] = []"
| "map_index_from k f (x # xs) = f x k # map_index_from (Suc k) f xs"

definition map_index :: "('a \<Rightarrow> nat \<Rightarrow> 'b) \<Rightarrow> 'a list \<Rightarrow> 'b list" where
  "map_index f xs = map_index_from 0 f xs"

subsection \<open>The helpers of the component\<close>

definition getCurrentStepName :: "Scope \<Rightarrow> string" where
  "getCurrentStepName sc = replace_first (matchUrl sc @ ''/'') '''' (pathname sc)"

text \<open>
  The optional argument is \<open>None\<close> when the call passes none. \<^verbatim>\<open>!!stepName\<close> is
  false for the empty string as well, so an empty name falls back to the navigation too.
\<close>

definition getCurrentStepIndex :: "Scope \<Rightarrow> string option \<Rightarrow> int" where
  "getCurrentStepIndex sc stepName =
     (let currentStepName =
            (case stepName of
               None \<Rightarrow> getCurrentStepName sc
             | Some n \<Rightarrow> if n \<noteq> '''' then n else getCurrentStepName sc)
      in findIndex (\<lambda>current. currentStepName = current) (wizardSteps sc))"

text \<open>
  In \<open>getNextPage\<close> the array is read at an index that is at least 0 (the step index
  is at least \<open>-1\<close>) and, past the test, below the length; in \<open>getPreviousPage\<close> at an
  index that is at least 0 past the test and below the step index. Both reads are in
  range (\<open>getNextPage_read_in_range\<close>, \<open>getPreviousPage_read_in_range\<close> below), so
  \<open>!\<close> is the read of the code.
\<close>

definition getNextPage :: "Scope \<Rightarrow> string" where
  "getNextPage sc =
     (let nextStepIndex = getCurrentStepIndex sc None + 1
      in if nextStepIndex \<ge> int (length (wizardSteps sc)) then WIZARD_COMPLETE
         else wizardSteps sc ! nat nextStepIndex)"

definition getPreviousPage :: "Scope \<Rightarrow> string" where
  "getPreviousPage sc =
     (let previousStepIndex = getCurrentStepIndex sc None - 1
      in if previousStepIndex < 0 then WIZARD_CANCEL
         else wizardSteps sc ! nat previousStepIndex)"

subsection \<open>The reducer\<close>

text \<open>
  The payload of \<open>reset\<close> is a \<^verbatim>\<open>string[]\<close>, never an \<^verbatim>\<open>Error\<close>. The two calls of
  the logger have no effect on the state and are left out.
\<close>

fun payload_is_Error :: "'a WizardAction \<Rightarrow> bool" where
  "payload_is_Error (nextStep p) = instanceof_Error p"
| "payload_is_Error (previousStep p) = instanceof_Error p"
| "payload_is_Error (reset ks) = False"
| "payload_is_Error (unhandled t p) = instanceof_Error p"

text \<open>
  The map that both cases of the switch run over the steps: the step whose index is the
  given one gets the payload as its state, \<^verbatim>\<open>{ ...step, state: action.payload }\<close>.
\<close>

definition store_payload :: "int \<Rightarrow> 'a jsval \<Rightarrow> 'a WizardStep list \<Rightarrow> 'a WizardStep list" where
  "store_payload currentStepIndex p sts =
     map_index (\<lambda>step index.
        if int index \<noteq> currentStepIndex then step else step\<lparr>state := p\<rparr>) sts"

definition initialState :: "'a WizardState" where
  "initialState = \<lparr>steps = [], currentLocation = ''''\<rparr>"

text \<open>
  The guard on the payload comes first, then the switch on the type of the action. In the
  last branch of \<open>reset\<close> the payload is not empty, so \<open>nextSteps\<close> has a first
  element and \<open>hd\<close> reads it, as \<^verbatim>\<open>nextSteps[0]\<close> does.
\<close>

definition reducer :: "Scope \<Rightarrow> 'a WizardState \<Rightarrow> 'a WizardAction \<Rightarrow> 'a WizardState" where
  "reducer sc st action =
     (if payload_is_Error action then st
      else
        (case action of
           previousStep p \<Rightarrow>
             (let currentStepIndex = getCurrentStepIndex sc None;
                  newSteps = store_payload currentStepIndex p (steps st)
              in \<lparr>steps = newSteps, currentLocation = getPreviousPage sc\<rparr>)
         | nextStep p \<Rightarrow>
             (let currentStepIndex = getCurrentStepIndex sc None;
                  newSteps = store_payload currentStepIndex p (steps st)
              in \<lparr>steps = newSteps, currentLocation = getNextPage sc\<rparr>)
         | reset ks \<Rightarrow>
             (let stepCount = length ks
              in if stepCount = 0 then \<lparr>steps = [], currentLocation = ''''\<rparr>
                 else
                   (let nextSteps = map_index (\<lambda>k index.
                          \<lparr>key = k, state = JsNull,
                           nextButtonIntlKey =
                             (if index + 1 = stepCount then completeIntlKey sc
                              else nextIntlKey sc)\<rparr>) ks
                    in \<lparr>steps = nextSteps, currentLocation = key (hd nextSteps)\<rparr>))
         | unhandled t p \<Rightarrow> st))"

subsection \<open>The effect on the current location\<close>

text \<open>
  The completion state is a plain object, \<^verbatim>\<open>{}\<close>, filled by
  \<^verbatim>\<open>completeState[step.key] = step.state\<close>. An assignment to a property of such an object
  creates or overwrites an own property, for every name but one: \<^verbatim>\<open>__proto__\<close> is an
  accessor of \<^verbatim>\<open>Object.prototype\<close>, so the assignment calls its setter with the value and
  creates no own property (the setter replaces the prototype of the object when the value
  is an object or \<^verbatim>\<open>null\<close>, and does nothing otherwise). The model keeps the own
  properties and, in order, the values the setter was called with.
\<close>

record 'a js_object =
  own_properties :: "string \<rightharpoonup> 'a jsval"
  proto_setter_args :: "'a jsval list"

definition empty_object :: "'a js_object" where
  "empty_object = \<lparr>own_properties = Map.empty, proto_setter_args = []\<rparr>"

definition assign_property :: "'a js_object \<Rightarrow> string \<Rightarrow> 'a jsval \<Rightarrow> 'a js_object" where
  "assign_property obj k v =
     (if k = ''__proto__'' then obj\<lparr>proto_setter_args := proto_setter_args obj @ [v]\<rparr>
      else obj\<lparr>own_properties := (own_properties obj)(k \<mapsto> v)\<rparr>)"

text \<open>The three callbacks of the host, as the events the effect produces.\<close>

datatype 'a callback =
    onWizardComplete "'a js_object"
  | onWizardCancel
  | onWizardStepChanged string "'a jsval"

text \<open>\<^verbatim>\<open>steps.forEach((step) => (completeState[step.key] = step.state))\<close>, from \<^verbatim>\<open>{}\<close>.\<close>

definition completeState :: "'a WizardStep list \<Rightarrow> 'a js_object" where
  "completeState sts =
     foldl (\<lambda>obj step. assign_property obj (key step) (state step)) empty_object sts"

text \<open>\<^verbatim>\<open>steps[i]?.state\<close>: \<^verbatim>\<open>undefined\<close> when \<open>i\<close> is no index of the array.\<close>

definition optional_state :: "'a WizardStep list \<Rightarrow> int \<Rightarrow> 'a jsval" where
  "optional_state sts i =
     (if 0 \<le> i \<and> i < int (length sts) then state (sts ! nat i) else JsUndefined)"

text \<open>The body of the effect, in the render whose scope is \<open>sc\<close> and whose state is \<open>st\<close>.\<close>

definition currentLocation_effect :: "Scope \<Rightarrow> 'a WizardState \<Rightarrow> 'a callback list" where
  "currentLocation_effect sc st =
     (if currentLocation st = '''' then []
      else if currentLocation st = WIZARD_COMPLETE then [onWizardComplete (completeState (steps st))]
      else if currentLocation st = WIZARD_CANCEL then [onWizardCancel]
      else [onWizardStepChanged (currentLocation st)
              (optional_state (steps st) (getCurrentStepIndex sc None))])"

text \<open>
  \<^verbatim>\<open>useEffect(body, [currentLocation])\<close> runs the body after the first render and after
  every render in which \<^verbatim>\<open>currentLocation\<close> differs from its value in the render before.
  \<open>prev\<close> is that value, \<open>None\<close> at the first render. The result is the list of
  callbacks invoked, in order.
\<close>

definition useEffect_currentLocation ::
  "Scope \<Rightarrow> string option \<Rightarrow> 'a WizardState \<Rightarrow> 'a callback list" where
  "useEffect_currentLocation sc prev st =
     (if prev = Some (currentLocation st) then [] else currentLocation_effect sc st)"

subsection \<open>The context and its hook\<close>

text \<open>
  \<^verbatim>\<open>createContext<WizardContextProps>({} as any)\<close>: the default value of the context
  is an empty object. \<^verbatim>\<open>useContext\<close> returns the value of the nearest enclosing
  provider and the default value when there is none.
\<close>

datatype 'p context_value = NullContext | EmptyObject | Provided 'p

datatype usage_error = UsageError string

definition WizardContext_default :: "'p context_value" where
  "WizardContext_default = EmptyObject"

definition useContext :: "'p option \<Rightarrow> 'p context_value" where
  "useContext provider = (case provider of None \<Rightarrow> WizardContext_default | Some v \<Rightarrow> Provided v)"

definition useWizardContext :: "'p option \<Rightarrow> usage_error + 'p context_value" where
  "useWizardContext provider =
     (let context = useContext provider
      in if context = NullContext
         then Inl (UsageError ''useWizardContext must be used within an WizardContextProvider'')
         else Inr context)"

subsection \<open>The component over time\<close>

text \<open>
  A mounted component is the scope of its last render, the state of its reducer, and
  whether the effect on \<^verbatim>\<open>[wizardSteps]\<close> has still to run for the array of step keys of
  that scope. The first render has the initial state of \<^verbatim>\<open>useReducer\<close>, and the effect
  is due. The events are those the file reacts to:
  \<^item> the component renders with a new array of step keys: the scope has the new array
    from then on, the state is as it was, and the effect is due;
  \<^item> the effect on \<^verbatim>\<open>[wizardSteps]\<close> runs: \<open>reset\<close> with the array of the scope is
    reduced, in that scope;
  \<^item> the navigation moves, or the host passes other label keys;
  \<^item> a step calls \<^verbatim>\<open>onNext\<close> or \<^verbatim>\<open>onBack\<close> of the context: \<open>nextStep\<close> or
    \<open>previousStep\<close> is reduced in the scope of the moment.
  The reducer is the closure of the render that reduces the action, so a request reduced
  after a render with a new array and before the effect of that render reads the new array
  and the registry built from the old one. The two dispatching functions are handled in
  every state: \<^verbatim>\<open>dispatch\<close> stays callable by whoever holds a function of an earlier
  render. The array of step keys is a value: a new array is a new render.
\<close>

record 'a Component =
  scope :: Scope
  wstate :: "'a WizardState"
  resetPending :: bool

datatype 'a event =
    StepsChanged "string list"
  | ResetEffect
  | Navigated string string
  | IntlKeysChanged string string
  | onNext "'a jsval"
  | onBack "'a jsval"

definition mount :: "Scope \<Rightarrow> 'a Component" where
  "mount sc = \<lparr>scope = sc, wstate = initialState, resetPending = True\<rparr>"

fun handle :: "'a Component \<Rightarrow> 'a event \<Rightarrow> 'a Component" where
  "handle c (StepsChanged ks) =
     c\<lparr>scope := (scope c)\<lparr>wizardSteps := ks\<rparr>, resetPending := True\<rparr>"
| "handle c ResetEffect =
     (if resetPending c
      then c\<lparr>wstate := reducer (scope c) (wstate c) (reset (wizardSteps (scope c))),
             resetPending := False\<rparr>
      else c)"
| "handle c (Navigated p m) = c\<lparr>scope := (scope c)\<lparr>pathname := p, matchUrl := m\<rparr>\<rparr>"
| "handle c (IntlKeysChanged n f) =
     c\<lparr>scope := (scope c)\<lparr>nextIntlKey := n, completeIntlKey := f\<rparr>\<rparr>"
| "handle c (onNext p) = c\<lparr>wstate := reducer (scope c) (wstate c) (nextStep p)\<rparr>"
| "handle c (onBack p) = c\<lparr>wstate := reducer (scope c) (wstate c) (previousStep p)\<rparr>"

definition run :: "Scope \<Rightarrow> 'a event list \<Rightarrow> 'a Component" where
  "run sc evs = foldl handle (mount sc) evs"

text \<open>The registry was built from the step keys the scope declares.\<close>

definition synchronized :: "Scope \<Rightarrow> 'a WizardState \<Rightarrow> bool" where
  "synchronized sc st = (map key (steps st) = wizardSteps sc)"

text \<open>A location that is a step key: not empty and neither of the two sentinels.\<close>

definition is_step_location :: "string \<Rightarrow> bool" where
  "is_step_location l = (l \<noteq> '''' \<and> l \<noteq> WIZARD_COMPLETE \<and> l \<noteq> WIZARD_CANCEL)"

text \<open>
  The invariant of the component: once the effect on \<^verbatim>\<open>[wizardSteps]\<close> has run for the
  array of the scope, the registry is synchronized with the declared keys, and a current
  location that is a step key is one of them.
\<close>

definition well_located :: "'a Component \<Rightarrow> bool" where
  "well_located c =
     (\<not> resetPending c \<longrightarrow>
        synchronized (scope c) (wstate c)
        \<and> (is_step_location (currentLocation (wstate c))
             \<longrightarrow> currentLocation (wstate c) \<in> set (wizardSteps (scope c))))"

text \<open>A request the reducer rejects: an error as payload, or a type it does not know.\<close>

fun is_unhandled :: "'a WizardAction \<Rightarrow> bool" where
  "is_unhandled (unhandled t p) = True"
| "is_unhandled a = False"

definition rejected :: "'a WizardAction \<Rightarrow> bool" where
  "rejected a = (payload_is_Error a \<or> is_unhandled a)"

subsection \<open>Two concrete wizards\<close>

text \<open>
  The wizard of the scenario of the specification, mounted under \<^verbatim>\<open>/wizard\<close> and
  showing the route of the given step, and a wizard of two steps.
\<close>

definition checkout_scope :: "string \<Rightarrow> Scope" where
  "checkout_scope step =
     \<lparr>wizardSteps = [''profile'', ''payment'', ''confirm''],
      nextIntlKey = ''Next'', completeIntlKey = ''Finish'',
      pathname = ''/wizard/'' @ step, matchUrl = ''/wizard''\<rparr>"

definition ab_scope :: "string \<Rightarrow> Scope" where
  "ab_scope step =
     \<lparr>wizardSteps = [''a'', ''b''],
      nextIntlKey = ''Next'', completeIntlKey = ''Finish'',
      pathname = ''/wizard/'' @ step, matchUrl = ''/wizard''\<rparr>"

text \<open>Both wizards after mounting: the registry \<open>reset\<close> builds from their keys.\<close>

definition checkout_start :: "nat WizardState" where
  "checkout_start =
     reducer (checkout_scope '''') initialState (reset [''profile'', ''payment'', ''confirm''])"

definition ab_start :: "nat WizardState" where
  "ab_start = reducer (ab_scope '''') initialState (reset [''a'', ''b''])"


text \<open>
  The wizard of two steps in the render after its host replaced the array of step keys,
  before the effect on \<^verbatim>\<open>[wizardSteps]\<close>: the host replaced \<^verbatim>\<open>b\<close> by \<^verbatim>\<open>c\<close> while
  \<^verbatim>\<open>a\<close> is shown, and \<^verbatim>\<open>a\<close> by \<^verbatim>\<open>x\<close> while \<^verbatim>\<open>b\<close> is shown.
\<close>

definition ac_window :: "nat Component" where
  "ac_window = run (ab_scope ''a'') [ResetEffect, StepsChanged [''a'', ''c'']]"

definition xb_window :: "nat Component" where
  "xb_window = run (ab_scope ''b'') [ResetEffect, StepsChanged [''x'', ''b'']]"

text \<open>
  A wizard whose first step has the key \<^verbatim>\<open>__proto__\<close>, and its state after both steps
  advanced, with the states 1 and 2.
\<close>

definition proto_scope :: "string \<Rightarrow> Scope" where
  "proto_scope step =
     \<lparr>wizardSteps = [''__proto__'', ''b''],
      nextIntlKey = ''Next'', completeIntlKey = ''Finish'',
      pathname = ''/wizard/'' @ step, matchUrl = ''/wizard''\<rparr>"

definition proto_done :: "nat WizardState" where
  "proto_done =
     reducer (proto_scope ''b'')
       (reducer (proto_scope ''__proto__'')
          (reducer (proto_scope ''__proto__'') initialState (reset [''__proto__'', ''b'']))
          (nextStep (JsValue 1)))
       (nextStep (JsValue 2))"

section \<open>Properties\<close>

subsection \<open>Library functions\<close>

lemma findIndex_from_range:
  "findIndex_from k p xs = - 1 \<or>
   (int k \<le> findIndex_from k p xs \<and> findIndex_from k p xs < int k + int (length xs))"
  by (induction xs arbitrary: k) fastforce+

lemma findIndex_range:
  "findIndex p xs = - 1 \<or> (0 \<le> findIndex p xs \<and> findIndex p xs < int (length xs))"
  using findIndex_from_range [of 0 p xs] by (simp add: findIndex_def)

lemma length_map_index_from [simp]: "length (map_index_from k f xs) = length xs"
  by (induction xs arbitrary: k) auto

lemma nth_map_index_from:
  "i < length xs \<Longrightarrow> map_index_from k f xs ! i = f (xs ! i) (k + i)"
  by (induction xs arbitrary: k i) (auto simp: nth_Cons split: nat.splits)

lemma length_map_index [simp]: "length (map_index f xs) = length xs"
  by (simp add: map_index_def)

lemma nth_map_index: "i < length xs \<Longrightarrow> map_index f xs ! i = f (xs ! i) i"
  by (simp add: map_index_def nth_map_index_from)

subsection \<open>The helpers\<close>

lemma getCurrentStepIndex_range:
  "getCurrentStepIndex sc n = - 1 \<or>
   (0 \<le> getCurrentStepIndex sc n \<and> getCurrentStepIndex sc n < int (length (wizardSteps sc)))"
  unfolding getCurrentStepIndex_def Let_def by (rule findIndex_range)

lemma getNextPage_read_in_range:
  assumes "\<not> getCurrentStepIndex sc None + 1 \<ge> int (length (wizardSteps sc))"
  shows "0 \<le> getCurrentStepIndex sc None + 1
    \<and> nat (getCurrentStepIndex sc None + 1) < length (wizardSteps sc)"
  using assms getCurrentStepIndex_range [of sc None] by auto

lemma getPreviousPage_read_in_range:
  assumes "\<not> getCurrentStepIndex sc None - 1 < 0"
  shows "nat (getCurrentStepIndex sc None - 1) < length (wizardSteps sc)"
  using assms getCurrentStepIndex_range [of sc None] by auto

lemma getNextPage_cases:
  "getNextPage sc = WIZARD_COMPLETE \<or> getNextPage sc \<in> set (wizardSteps sc)"
  using getNextPage_read_in_range [of sc] by (auto simp: getNextPage_def Let_def)

lemma getPreviousPage_cases:
  "getPreviousPage sc = WIZARD_CANCEL \<or> getPreviousPage sc \<in> set (wizardSteps sc)"
  using getPreviousPage_read_in_range [of sc] by (auto simp: getPreviousPage_def Let_def)

subsection \<open>Storing a payload\<close>

lemma length_store_payload [simp]: "length (store_payload i p sts) = length sts"
  by (simp add: store_payload_def)

lemma nth_store_payload:
  "j < length sts \<Longrightarrow>
   store_payload i p sts ! j = (if int j \<noteq> i then sts ! j else (sts ! j)\<lparr>state := p\<rparr>)"
  by (simp add: store_payload_def nth_map_index)

lemma map_key_store_payload [simp]: "map key (store_payload i p sts) = map key sts"
  by (rule nth_equalityI) (simp_all add: nth_store_payload)

lemma store_payload_not_found [simp]: "store_payload (- 1) p sts = sts"
  by (rule nth_equalityI) (simp_all add: nth_store_payload)

subsection \<open>Resetting\<close>

lemma reset_length [simp]: "length (steps (reducer sc st (reset ks))) = length ks"
  by (simp add: reducer_def Let_def)

lemma reset_steps_nth:
  assumes "i < length ks"
  shows "steps (reducer sc st (reset ks)) ! i =
         \<lparr>key = ks ! i, state = JsNull,
          nextButtonIntlKey =
            (if i + 1 = length ks then completeIntlKey sc else nextIntlKey sc)\<rparr>"
  using assms by (auto simp: reducer_def Let_def nth_map_index)

lemma reset_keys [simp]: "map key (steps (reducer sc st (reset ks))) = ks"
  by (rule nth_equalityI) (simp_all add: reset_steps_nth)

lemma reset_currentLocation:
  "currentLocation (reducer sc st (reset ks)) = (if ks = [] then '''' else hd ks)"
  by (cases ks) (simp_all add: reducer_def Let_def map_index_def)

subsection \<open>Accepted requests\<close>

lemma nextStep_accepted:
  "\<not> instanceof_Error p \<Longrightarrow>
   reducer sc st (nextStep p) =
     \<lparr>steps = store_payload (getCurrentStepIndex sc None) p (steps st),
      currentLocation = getNextPage sc\<rparr>"
  by (simp add: reducer_def)

lemma previousStep_accepted:
  "\<not> instanceof_Error p \<Longrightarrow>
   reducer sc st (previousStep p) =
     \<lparr>steps = store_payload (getCurrentStepIndex sc None) p (steps st),
      currentLocation = getPreviousPage sc\<rparr>"
  by (simp add: reducer_def)

subsection \<open>A synchronized registry\<close>

lemma synchronized_nth:
  "synchronized sc st \<Longrightarrow> j < length (steps st) \<Longrightarrow> wizardSteps sc ! j = key (steps st ! j)"
  unfolding synchronized_def by (metis nth_map)

lemma synchronized_length:
  "synchronized sc st \<Longrightarrow> length (wizardSteps sc) = length (steps st)"
  unfolding synchronized_def by (metis length_map)

subsection \<open>The completion state and the state read by the effect\<close>

lemma foldl_assign_own_other:
  "k \<notin> key ` set sts \<Longrightarrow>
   own_properties (foldl (\<lambda>obj step. assign_property obj (key step) (state step)) obj sts) k
     = own_properties obj k"
  by (induction sts arbitrary: obj) (auto simp: assign_property_def)

lemma foldl_assign_own_proto:
  "own_properties (foldl (\<lambda>obj step. assign_property obj (key step) (state step)) obj sts)
     ''__proto__'' = own_properties obj ''__proto__''"
  by (induction sts arbitrary: obj) (auto simp: assign_property_def)

lemma foldl_assign_own_dom:
  "dom (own_properties (foldl (\<lambda>obj step. assign_property obj (key step) (state step)) obj sts))
     = dom (own_properties obj) \<union> (key ` set sts - {''__proto__''})"
  by (induction sts arbitrary: obj) (auto simp: assign_property_def)

lemma foldl_assign_setter_args:
  "proto_setter_args (foldl (\<lambda>obj step. assign_property obj (key step) (state step)) obj sts)
     = proto_setter_args obj @ map state (filter (\<lambda>step. key step = ''__proto__'') sts)"
  by (induction sts arbitrary: obj) (auto simp: assign_property_def)

lemma foldl_assign_own_distinct:
  "distinct (map key sts) \<Longrightarrow> step \<in> set sts \<Longrightarrow> key step \<noteq> ''__proto__'' \<Longrightarrow>
   own_properties (foldl (\<lambda>obj step. assign_property obj (key step) (state step)) obj sts)
     (key step) = Some (state step)"
proof (induction sts arbitrary: obj)
  case Nil
  then show ?case by simp
next
  case (Cons x xs)
  show ?case
  proof (cases "step = x")
    case True
    with Cons.prems have "key x \<notin> key ` set xs" and "key x \<noteq> ''__proto__''" by simp_all
    then have "own_properties
        (foldl (\<lambda>obj step. assign_property obj (key step) (state step))
           (assign_property obj (key x) (state x)) xs) (key x)
        = own_properties (assign_property obj (key x) (state x)) (key x)"
      by (intro foldl_assign_own_other)
    also have "\<dots> = Some (state x)"
      using \<open>key x \<noteq> ''__proto__''\<close> by (simp add: assign_property_def)
    finally show ?thesis by (simp only: True foldl_Cons)
  next
    case False
    with Cons show ?thesis by simp
  qed
qed

text \<open>
  The own properties of the completion state: one for every key of a step but
  \<^verbatim>\<open>__proto__\<close>, holding the state of the step when the keys are distinct. The states of
  the steps of the key \<^verbatim>\<open>__proto__\<close> go to the setter.
\<close>

lemma dom_completeState:
  "dom (own_properties (completeState sts)) = key ` set sts - {''__proto__''}"
  by (simp add: completeState_def foldl_assign_own_dom empty_object_def)

lemma completeState_proto: "own_properties (completeState sts) ''__proto__'' = None"
  by (simp add: completeState_def foldl_assign_own_proto empty_object_def)

lemma completeState_setter_args:
  "proto_setter_args (completeState sts)
     = map state (filter (\<lambda>step. key step = ''__proto__'') sts)"
  by (simp add: completeState_def foldl_assign_setter_args empty_object_def)

lemma completeState_distinct:
  "distinct (map key sts) \<Longrightarrow> step \<in> set sts \<Longrightarrow> key step \<noteq> ''__proto__'' \<Longrightarrow>
   own_properties (completeState sts) (key step) = Some (state step)"
  unfolding completeState_def by (rule foldl_assign_own_distinct)


subsection \<open>The step the navigation shows\<close>

lemma index_of_name:
  "getCurrentStepName sc = n \<Longrightarrow>
   getCurrentStepIndex sc None = findIndex (\<lambda>current. n = current) (wizardSteps sc)"
  by (simp add: getCurrentStepIndex_def)

subsection \<open>The invariant of the component\<close>

lemma well_located_mount: "well_located (mount sc)"
  by (simp add: mount_def well_located_def)

lemma well_located_ResetEffect: "well_located c \<Longrightarrow> well_located (handle c ResetEffect)"
proof (cases "resetPending c")
  case True
  then show ?thesis
    by (cases "wizardSteps (scope c)")
      (simp_all add: well_located_def synchronized_def reset_currentLocation
        is_step_location_def)
next
  case False
  assume "well_located c"
  with False show ?thesis by simp
qed

lemma well_located_nextStep:
  assumes "well_located c"
  shows "well_located (c\<lparr>wstate := reducer (scope c) (wstate c) (nextStep p)\<rparr>)"
proof (cases "instanceof_Error p")
  case True
  with assms show ?thesis by (simp add: reducer_def)
next
  case False
  with assms getNextPage_cases [of "scope c"] show ?thesis
    by (auto simp: nextStep_accepted well_located_def synchronized_def is_step_location_def)
qed

lemma well_located_previousStep:
  assumes "well_located c"
  shows "well_located (c\<lparr>wstate := reducer (scope c) (wstate c) (previousStep p)\<rparr>)"
proof (cases "instanceof_Error p")
  case True
  with assms show ?thesis by (simp add: reducer_def)
next
  case False
  with assms getPreviousPage_cases [of "scope c"] show ?thesis
    by (auto simp: previousStep_accepted well_located_def synchronized_def is_step_location_def)
qed

lemma well_located_handle: "well_located c \<Longrightarrow> well_located (handle c e)"
proof (cases e)
  case (StepsChanged ks)
  then show ?thesis by (simp add: well_located_def)
next
  case ResetEffect
  assume "well_located c"
  with ResetEffect show ?thesis by (simp only: well_located_ResetEffect)
next
  case (Navigated p m)
  assume "well_located c"
  with Navigated show ?thesis by (simp add: well_located_def synchronized_def)
next
  case (IntlKeysChanged n f)
  assume "well_located c"
  with IntlKeysChanged show ?thesis by (simp add: well_located_def synchronized_def)
next
  case (onNext p)
  assume "well_located c"
  with onNext show ?thesis by (simp add: well_located_nextStep)
next
  case (onBack p)
  assume "well_located c"
  with onBack show ?thesis by (simp add: well_located_previousStep)
qed

lemma well_located_foldl: "well_located c \<Longrightarrow> well_located (foldl handle c evs)"
  by (induction evs arbitrary: c) (simp_all add: well_located_handle)

lemma well_located_run: "well_located (run sc evs)"
  unfolding run_def by (rule well_located_foldl) (rule well_located_mount)

subsection \<open>Evaluating the model on concrete inputs\<close>

lemmas wizard_eval = reducer_def
  getCurrentStepIndex_def getCurrentStepName_def findIndex_def map_index_def
  store_payload_def initialState_def getNextPage_def getPreviousPage_def
  WIZARD_COMPLETE_def WIZARD_CANCEL_def Let_def optional_state_def
  currentLocation_effect_def useEffect_currentLocation_def completeState_def
  assign_property_def empty_object_def checkout_scope_def ab_scope_def proto_scope_def

lemma checkout_start_eq:
  "checkout_start = \<lparr>steps =
       [\<lparr>key = ''profile'', state = JsNull, nextButtonIntlKey = ''Next''\<rparr>,
        \<lparr>key = ''payment'', state = JsNull, nextButtonIntlKey = ''Next''\<rparr>,
        \<lparr>key = ''confirm'', state = JsNull, nextButtonIntlKey = ''Finish''\<rparr>],
      currentLocation = ''profile''\<rparr>"
  by (simp add: checkout_start_def wizard_eval)

lemma checkout_index [simp]:
  "getCurrentStepIndex (checkout_scope ''profile'') None = 0"
  "getCurrentStepIndex (checkout_scope ''payment'') None = 1"
  "getCurrentStepIndex (checkout_scope ''confirm'') None = 2"
  "getCurrentStepIndex (checkout_scope ''review'') None = - 1"
  by (simp_all add: wizard_eval)

lemma checkout_length [simp]: "length (wizardSteps (checkout_scope step)) = 3"
  by (simp add: checkout_scope_def)

lemma checkout_start_facts [simp]:
  "length (steps checkout_start) = 3"
  "currentLocation checkout_start = ''profile''"
  by (simp_all add: checkout_start_eq)

lemma checkout_synchronized [simp]: "synchronized (checkout_scope step) checkout_start"
  by (simp add: synchronized_def checkout_start_eq checkout_scope_def)

lemma ab_start_eq:
  "ab_start = \<lparr>steps =
       [\<lparr>key = ''a'', state = JsNull, nextButtonIntlKey = ''Next''\<rparr>,
        \<lparr>key = ''b'', state = JsNull, nextButtonIntlKey = ''Finish''\<rparr>],
      currentLocation = ''a''\<rparr>"
  by (simp add: ab_start_def wizard_eval)

lemma ab_index [simp]:
  "getCurrentStepIndex (ab_scope ''a'') None = 0"
  "getCurrentStepIndex (ab_scope ''b'') None = 1"
  by (simp_all add: wizard_eval)

lemma ab_length [simp]: "length (wizardSteps (ab_scope step)) = 2"
  by (simp add: ab_scope_def)

lemma ab_start_facts [simp]:
  "length (steps ab_start) = 2"
  "currentLocation ab_start = ''a''"
  by (simp_all add: ab_start_eq)

lemma ab_synchronized [simp]: "synchronized (ab_scope step) ab_start"
  by (simp add: synchronized_def ab_start_eq ab_scope_def)


lemma ac_window_eq:
  "ac_window =
     \<lparr>scope = \<lparr>wizardSteps = [''a'', ''c''], nextIntlKey = ''Next'', completeIntlKey = ''Finish'',
                pathname = ''/wizard/a'', matchUrl = ''/wizard''\<rparr>,
      wstate = \<lparr>steps =
         [\<lparr>key = ''a'', state = JsNull, nextButtonIntlKey = ''Next''\<rparr>,
          \<lparr>key = ''b'', state = JsNull, nextButtonIntlKey = ''Finish''\<rparr>],
        currentLocation = ''a''\<rparr>,
      resetPending = True\<rparr>"
  by (simp add: ac_window_def run_def mount_def wizard_eval)

lemma xb_window_eq:
  "xb_window =
     \<lparr>scope = \<lparr>wizardSteps = [''x'', ''b''], nextIntlKey = ''Next'', completeIntlKey = ''Finish'',
                pathname = ''/wizard/b'', matchUrl = ''/wizard''\<rparr>,
      wstate = \<lparr>steps =
         [\<lparr>key = ''a'', state = JsNull, nextButtonIntlKey = ''Next''\<rparr>,
          \<lparr>key = ''b'', state = JsNull, nextButtonIntlKey = ''Finish''\<rparr>],
        currentLocation = ''a''\<rparr>,
      resetPending = True\<rparr>"
  by (simp add: xb_window_def run_def mount_def wizard_eval)

lemma proto_done_eq:
  "proto_done = \<lparr>steps =
       [\<lparr>key = ''__proto__'', state = JsValue 1, nextButtonIntlKey = ''Next''\<rparr>,
        \<lparr>key = ''b'', state = JsValue 2, nextButtonIntlKey = ''Finish''\<rparr>],
      currentLocation = ''@Wizard/complete''\<rparr>"
  by (simp add: proto_done_def wizard_eval)

subsection \<open>The completion callback\<close>

text \<open>
  When the current location has become the sentinel \<open>WIZARD_COMPLETE\<close> (the location of
  the render before was another one), the effect invokes the completion callback once and
  no other callback, with the completion state of the registry.
\<close>

lemma completion_effect:
  "currentLocation st = WIZARD_COMPLETE \<Longrightarrow> prev \<noteq> Some WIZARD_COMPLETE \<Longrightarrow>
   useEffect_currentLocation sc prev st = [onWizardComplete (completeState (steps st))]"
  by (auto simp: useEffect_currentLocation_def currentLocation_effect_def WIZARD_COMPLETE_def)

text \<open>
  The steps \<^verbatim>\<open>a\<close> and \<^verbatim>\<open>b\<close>: after \<open>reset\<close>, \<open>nextStep stateA\<close> while \<^verbatim>\<open>a\<close> is shown
  and \<open>nextStep stateB\<close> while \<^verbatim>\<open>b\<close> is shown, the first effect invokes the step-changed
  callback only, and the second the completion callback with \<^verbatim>\<open>{a: stateA, b: stateB}\<close>.
\<close>

lemma completion_scenario_ab:
  fixes st' :: "'a WizardState"
  assumes a: "wizardSteps sa = [''a'', ''b'']" "getCurrentStepName sa = ''a''"
    and b: "wizardSteps sb = [''a'', ''b'']" "getCurrentStepName sb = ''b''"
    and payloads: "\<not> instanceof_Error stateA" "\<not> instanceof_Error stateB"
  defines "st0 \<equiv> reducer sa st' (reset [''a'', ''b''])"
  defines "st1 \<equiv> reducer sa st0 (nextStep stateA)"
  defines "st2 \<equiv> reducer sb st1 (nextStep stateB)"
  shows "useEffect_currentLocation sa (Some (currentLocation st0)) st1
           = [onWizardStepChanged ''b'' stateA]"
    and "useEffect_currentLocation sb (Some (currentLocation st1)) st2
           = [onWizardComplete
                \<lparr>own_properties = [''a'' \<mapsto> stateA, ''b'' \<mapsto> stateB],
                 proto_setter_args = []\<rparr>]"
proof -
  have ia: "getCurrentStepIndex sa None = 0"
    using a by (simp add: index_of_name [of sa "''a''"] findIndex_def)
  have ib: "getCurrentStepIndex sb None = 1"
    using b by (simp add: index_of_name [of sb "''b''"] findIndex_def)
  have s0: "steps st0 = [\<lparr>key = ''a'', state = JsNull, nextButtonIntlKey = nextIntlKey sa\<rparr>,
              \<lparr>key = ''b'', state = JsNull, nextButtonIntlKey = completeIntlKey sa\<rparr>]"
    and l0: "currentLocation st0 = ''a''"
    by (simp_all add: st0_def reducer_def map_index_def)
  have s1: "steps st1 = [\<lparr>key = ''a'', state = stateA, nextButtonIntlKey = nextIntlKey sa\<rparr>,
              \<lparr>key = ''b'', state = JsNull, nextButtonIntlKey = completeIntlKey sa\<rparr>]"
    and l1: "currentLocation st1 = ''b''"
    using a ia payloads
    by (simp_all add: st1_def nextStep_accepted s0 store_payload_def map_index_def
        getNextPage_def)
  have s2: "steps st2 = [\<lparr>key = ''a'', state = stateA, nextButtonIntlKey = nextIntlKey sa\<rparr>,
              \<lparr>key = ''b'', state = stateB, nextButtonIntlKey = completeIntlKey sa\<rparr>]"
    and l2: "currentLocation st2 = WIZARD_COMPLETE"
    using b ib payloads
    by (simp_all add: st2_def nextStep_accepted s1 store_payload_def map_index_def
        getNextPage_def)
  show "useEffect_currentLocation sa (Some (currentLocation st0)) st1
      = [onWizardStepChanged ''b'' stateA]"
    using ia by (simp add: useEffect_currentLocation_def currentLocation_effect_def l0 l1 s1
        optional_state_def WIZARD_COMPLETE_def WIZARD_CANCEL_def)
  show "useEffect_currentLocation sb (Some (currentLocation st1)) st2
      = [onWizardComplete
           \<lparr>own_properties = [''a'' \<mapsto> stateA, ''b'' \<mapsto> stateB],
            proto_setter_args = []\<rparr>]"
    by (simp add: useEffect_currentLocation_def currentLocation_effect_def l1 l2 s2
        completeState_def assign_property_def empty_object_def WIZARD_COMPLETE_def)
qed

section \<open>The claims\<close>

text \<open>
  C4. For every non-empty list of step keys, \<open>reset\<close> produces a registry of the same
  length with the keys in the same order, the state of every step \<^verbatim>\<open>null\<close>, the label
  of the last step \<open>completeIntlKey\<close> and the label of every other step
  \<open>nextIntlKey\<close>, and the current location is the first key. \<open>reset\<close> with the empty
  list gives the empty registry and the empty location. The state before plays no part.
\<close>

theorem reinitialize_builds_registry:
  "(ks \<noteq> [] \<longrightarrow>
      length (steps (reducer sc st (reset ks))) = length ks
    \<and> map key (steps (reducer sc st (reset ks))) = ks
    \<and> (\<forall>step \<in> set (steps (reducer sc st (reset ks))). state step = JsNull)
    \<and> nextButtonIntlKey (last (steps (reducer sc st (reset ks)))) = completeIntlKey sc
    \<and> (\<forall>i. i + 1 < length ks \<longrightarrow>
          nextButtonIntlKey (steps (reducer sc st (reset ks)) ! i) = nextIntlKey sc)
    \<and> currentLocation (reducer sc st (reset ks)) = hd ks)
   \<and> reducer sc st (reset []) = \<lparr>steps = [], currentLocation = ''''\<rparr>"
proof -
  let ?st' = "reducer sc st (reset ks)"
  have len: "length (steps ?st') = length ks" by (rule reset_length)
  have nth: "\<And>i. i < length ks \<Longrightarrow> steps ?st' ! i =
         \<lparr>key = ks ! i, state = JsNull,
          nextButtonIntlKey =
            (if i + 1 = length ks then completeIntlKey sc else nextIntlKey sc)\<rparr>"
    by (rule reset_steps_nth)
  have null: "\<forall>step \<in> set (steps ?st'). state step = JsNull"
  proof
    fix step assume "step \<in> set (steps ?st')"
    then obtain i where "i < length (steps ?st')" "steps ?st' ! i = step"
      by (auto simp: in_set_conv_nth)
    with nth [of i] len show "state step = JsNull" by auto
  qed
  have lst: "nextButtonIntlKey (last (steps ?st')) = completeIntlKey sc" if "ks \<noteq> []"
  proof -
    from that len have "length (steps ?st') \<noteq> 0" by simp
    then have ne: "steps ?st' \<noteq> []" by (simp only: length_0_conv not_False_eq_True)
    have "last (steps ?st') = steps ?st' ! (length ks - 1)"
      using last_conv_nth [OF ne] len by simp
    also have "\<dots> = \<lparr>key = ks ! (length ks - 1), state = JsNull,
          nextButtonIntlKey = completeIntlKey sc\<rparr>"
      using nth [of "length ks - 1"] that by simp
    finally show ?thesis by simp
  qed
  have others: "\<forall>i. i + 1 < length ks \<longrightarrow> nextButtonIntlKey (steps ?st' ! i) = nextIntlKey sc"
    using nth by simp
  have loc: "currentLocation ?st' = hd ks" if "ks \<noteq> []"
    using that by (simp add: reset_currentLocation)
  have emp: "reducer sc st (reset []) = \<lparr>steps = [], currentLocation = ''''\<rparr>"
    by (simp add: reducer_def)
  from len null lst others loc emp show ?thesis
    using reset_keys [of sc st ks] by blast
qed

text \<open>The wizard of three steps: the hypotheses hold and the registry is as stated.\<close>

theorem reinitialize_builds_registry_witness:
  "[''profile'', ''payment'', ''confirm''] \<noteq> []
   \<and> steps (reducer (checkout_scope '''') (initialState :: nat WizardState)
        (reset [''profile'', ''payment'', ''confirm''])) =
       [\<lparr>key = ''profile'', state = JsNull, nextButtonIntlKey = ''Next''\<rparr>,
        \<lparr>key = ''payment'', state = JsNull, nextButtonIntlKey = ''Next''\<rparr>,
        \<lparr>key = ''confirm'', state = JsNull, nextButtonIntlKey = ''Finish''\<rparr>]
   \<and> nextButtonIntlKey (last (steps (reducer (checkout_scope '''') (initialState :: nat WizardState)
        (reset [''profile'', ''payment'', ''confirm''])))) = completeIntlKey (checkout_scope '''')
   \<and> currentLocation (reducer (checkout_scope '''') (initialState :: nat WizardState)
        (reset [''profile'', ''payment'', ''confirm''])) = ''profile''"
  using reinitialize_builds_registry
    [of "[''profile'', ''payment'', ''confirm'']" "checkout_scope ''''" "initialState :: nat WizardState"]
  by (simp add: wizard_eval)

text \<open>
  C5. The claim: in a registry of N steps, \<open>nextStep\<close> dispatched while the step the
  navigation shows has index \<open>i\<close> with \<open>0 \<le> i < N - 1\<close> sets the current location to the
  key of the registry's step at index \<open>i + 1\<close>.

  \<open>getNextPage\<close> reads the next key from the declared array of step keys, not from the
  registry. In the render after the host replaced the keys \<^verbatim>\<open>a\<close>, \<^verbatim>\<open>b\<close> by \<^verbatim>\<open>a\<close>,
  \<^verbatim>\<open>c\<close>, before the effect on \<^verbatim>\<open>[wizardSteps]\<close>, the registry still has the steps
  \<^verbatim>\<open>a\<close> and \<^verbatim>\<open>b\<close>, and \<open>nextStep\<close> at index 0 leads to \<^verbatim>\<open>c\<close>, which is not the key
  \<^verbatim>\<open>b\<close> of the registry's step at index 1.
\<close>

theorem advance_registry_key_counterexample:
  "length (steps (wstate ac_window)) = 2
   \<and> getCurrentStepIndex (scope ac_window) None = 0
   \<and> key (steps (wstate ac_window) ! nat (0 + 1)) = ''b''
   \<and> currentLocation (reducer (scope ac_window) (wstate ac_window) (nextStep (JsValue 7))) = ''c''
   \<and> currentLocation (reducer (scope ac_window) (wstate ac_window) (nextStep (JsValue 7)))
       \<noteq> key (steps (wstate ac_window) ! nat (0 + 1))"
  by (simp add: ac_window_eq wizard_eval)

text \<open>
  C5, as the code has it: for a declared array of N step keys, \<open>nextStep\<close> with a state as
  payload, dispatched while the step the navigation shows has index \<open>i\<close> in that array
  with \<open>0 \<le> i < N - 1\<close>, sets the current location to the declared key at index
  \<open>i + 1\<close>, which is the key of the registry's step at index \<open>i + 1\<close> when the registry
  was built from that array; dispatched while the index is \<open>N - 1\<close>, it sets the current
  location to the sentinel \<open>WIZARD_COMPLETE\<close>.
\<close>

theorem advance_sets_next_location:
  assumes payload: "\<not> instanceof_Error p"
  shows "(0 \<le> i \<and> i < int (length (wizardSteps sc)) - 1 \<and> getCurrentStepIndex sc None = i \<longrightarrow>
            currentLocation (reducer sc st (nextStep p)) = wizardSteps sc ! nat (i + 1)
            \<and> (synchronized sc st \<longrightarrow>
                 currentLocation (reducer sc st (nextStep p)) = key (steps st ! nat (i + 1))))
       \<and> (getCurrentStepIndex sc None = int (length (wizardSteps sc)) - 1 \<longrightarrow>
            currentLocation (reducer sc st (nextStep p)) = WIZARD_COMPLETE)"
proof (intro conjI impI)
  assume a: "0 \<le> i \<and> i < int (length (wizardSteps sc)) - 1 \<and> getCurrentStepIndex sc None = i"
  then have "getNextPage sc = wizardSteps sc ! nat (i + 1)"
    by (simp add: getNextPage_def Let_def)
  then show declared:
    "currentLocation (reducer sc st (nextStep p)) = wizardSteps sc ! nat (i + 1)"
    using payload by (simp add: nextStep_accepted)
  assume sync: "synchronized sc st"
  from a have "nat (i + 1) < length (steps st)"
    using synchronized_length [OF sync] by linarith
  with sync have "wizardSteps sc ! nat (i + 1) = key (steps st ! nat (i + 1))"
    by (rule synchronized_nth)
  with declared show "currentLocation (reducer sc st (nextStep p)) = key (steps st ! nat (i + 1))"
    by simp
next
  assume "getCurrentStepIndex sc None = int (length (wizardSteps sc)) - 1"
  then have "getNextPage sc = WIZARD_COMPLETE"
    by (simp add: getNextPage_def Let_def)
  then show "currentLocation (reducer sc st (nextStep p)) = WIZARD_COMPLETE"
    using payload by (simp add: nextStep_accepted)
qed

text \<open>The wizard of three steps, advancing from its first and from its last step.\<close>

theorem advance_sets_next_location_witness:
  "\<not> instanceof_Error (JsValue (7::nat))
   \<and> (0::int) < int (length (wizardSteps (checkout_scope ''profile''))) - 1
   \<and> getCurrentStepIndex (checkout_scope ''profile'') None = 0
   \<and> synchronized (checkout_scope ''profile'') checkout_start
   \<and> currentLocation (reducer (checkout_scope ''profile'') checkout_start (nextStep (JsValue 7)))
       = ''payment''
   \<and> key (steps checkout_start ! 1) = ''payment''
   \<and> getCurrentStepIndex (checkout_scope ''confirm'') None
       = int (length (wizardSteps (checkout_scope ''confirm''))) - 1
   \<and> currentLocation (reducer (checkout_scope ''confirm'') checkout_start (nextStep (JsValue 7)))
       = ''@Wizard/complete''"
proof -
  have sync: "synchronized (checkout_scope step) checkout_start" for step
    by (rule checkout_synchronized)
  have payload: "\<not> instanceof_Error (JsValue (7::nat))" by simp
  have first: "(0::int) \<le> 0 \<and> 0 < int (length (wizardSteps (checkout_scope ''profile''))) - 1
      \<and> getCurrentStepIndex (checkout_scope ''profile'') None = 0"
    by simp
  have last: "getCurrentStepIndex (checkout_scope ''confirm'') None
      = int (length (wizardSteps (checkout_scope ''confirm''))) - 1"
    by simp
  note inst = advance_sets_next_location [OF payload, of 0 _ checkout_start]
  from inst [of "checkout_scope ''profile''", THEN conjunct1, THEN mp, OF first]
  have declared: "currentLocation
        (reducer (checkout_scope ''profile'') checkout_start (nextStep (JsValue 7)))
      = wizardSteps (checkout_scope ''profile'') ! nat (0 + 1)"
    and registry: "currentLocation
        (reducer (checkout_scope ''profile'') checkout_start (nextStep (JsValue 7)))
      = key (steps checkout_start ! nat (0 + 1))"
    using sync by blast+
  from inst [of "checkout_scope ''confirm''", THEN conjunct2, THEN mp, OF last]
  have complete: "currentLocation
      (reducer (checkout_scope ''confirm'') checkout_start (nextStep (JsValue 7)))
      = WIZARD_COMPLETE" .
  have second: "key (steps checkout_start ! 1) = ''payment''"
    by (simp add: checkout_start_eq)
  from declared registry complete second sync payload first last show ?thesis
    by (simp add: WIZARD_COMPLETE_def)
qed

text \<open>
  C6. The claim: in a registry of N steps, \<open>previousStep\<close> dispatched while the step the
  navigation shows has index \<open>i\<close> with \<open>0 < i < N\<close> sets the current location to the key
  of the registry's step at index \<open>i - 1\<close>; dispatched at index 0, it sets the current
  location to the sentinel \<open>WIZARD_CANCEL\<close>, and the cancellation callback is invoked
  once and the step-changed callback is not.

  \<open>getPreviousPage\<close> reads the previous key from the declared array of step keys, not from
  the registry. In the render after the host replaced the keys \<^verbatim>\<open>a\<close>, \<^verbatim>\<open>b\<close> by
  \<^verbatim>\<open>x\<close>, \<^verbatim>\<open>b\<close>, before the effect on \<^verbatim>\<open>[wizardSteps]\<close>, the registry still has the
  steps \<^verbatim>\<open>a\<close> and \<^verbatim>\<open>b\<close>, and \<open>previousStep\<close> at index 1 leads to \<^verbatim>\<open>x\<close>, which is not
  the key \<^verbatim>\<open>a\<close> of the registry's step at index 0.
\<close>

theorem retreat_registry_key_counterexample:
  "length (steps (wstate xb_window)) = 2
   \<and> getCurrentStepIndex (scope xb_window) None = 1
   \<and> key (steps (wstate xb_window) ! nat (1 - 1)) = ''a''
   \<and> currentLocation (reducer (scope xb_window) (wstate xb_window) (previousStep (JsValue 7)))
       = ''x''
   \<and> currentLocation (reducer (scope xb_window) (wstate xb_window) (previousStep (JsValue 7)))
       \<noteq> key (steps (wstate xb_window) ! nat (1 - 1))"
  by (simp add: xb_window_eq wizard_eval)

text \<open>
  C6, as the code has it: for a declared array of N step keys, \<open>previousStep\<close> with a state
  as payload, dispatched while the step the navigation shows has index \<open>i\<close> in that array
  with \<open>0 < i < N\<close>, sets the current location to the declared key at index \<open>i - 1\<close>,
  which is the key of the registry's step at index \<open>i - 1\<close> when the registry was built
  from that array; dispatched while the index is 0, it sets the current location to the
  sentinel \<open>WIZARD_CANCEL\<close>, and the effect that follows this change of the location (the
  location before was another one) invokes the cancellation callback once and no other
  callback, in whatever scope the effect runs.
\<close>

theorem retreat_sets_previous_location:
  assumes payload: "\<not> instanceof_Error p"
  shows "(0 < i \<and> i < int (length (wizardSteps sc)) \<and> getCurrentStepIndex sc None = i \<longrightarrow>
            currentLocation (reducer sc st (previousStep p)) = wizardSteps sc ! nat (i - 1)
            \<and> (synchronized sc st \<longrightarrow>
                 currentLocation (reducer sc st (previousStep p)) = key (steps st ! nat (i - 1))))
       \<and> (getCurrentStepIndex sc None = 0 \<longrightarrow>
            currentLocation (reducer sc st (previousStep p)) = WIZARD_CANCEL
          \<and> (currentLocation st \<noteq> WIZARD_CANCEL \<longrightarrow>
               useEffect_currentLocation sc' (Some (currentLocation st))
                 (reducer sc st (previousStep p)) = [onWizardCancel]))"
proof (intro conjI impI)
  assume a: "0 < i \<and> i < int (length (wizardSteps sc)) \<and> getCurrentStepIndex sc None = i"
  then have "getPreviousPage sc = wizardSteps sc ! nat (i - 1)"
    by (simp add: getPreviousPage_def Let_def)
  then show declared:
    "currentLocation (reducer sc st (previousStep p)) = wizardSteps sc ! nat (i - 1)"
    using payload by (simp add: previousStep_accepted)
  assume sync: "synchronized sc st"
  from a have "nat (i - 1) < length (steps st)"
    using synchronized_length [OF sync] by linarith
  with sync have "wizardSteps sc ! nat (i - 1) = key (steps st ! nat (i - 1))"
    by (rule synchronized_nth)
  with declared
  show "currentLocation (reducer sc st (previousStep p)) = key (steps st ! nat (i - 1))"
    by simp
next
  assume "getCurrentStepIndex sc None = 0"
  then have "getPreviousPage sc = WIZARD_CANCEL"
    by (simp add: getPreviousPage_def Let_def)
  then show loc: "currentLocation (reducer sc st (previousStep p)) = WIZARD_CANCEL"
    using payload by (simp add: previousStep_accepted)
  assume "currentLocation st \<noteq> WIZARD_CANCEL"
  with loc show "useEffect_currentLocation sc' (Some (currentLocation st))
      (reducer sc st (previousStep p)) = [onWizardCancel]"
    by (simp add: useEffect_currentLocation_def currentLocation_effect_def
        WIZARD_CANCEL_def WIZARD_COMPLETE_def)
qed

text \<open>The wizard of two steps, retreating from its second and from its first step.\<close>

theorem retreat_sets_previous_location_witness:
  "\<not> instanceof_Error (JsValue (7::nat))
   \<and> (1::int) < int (length (wizardSteps (ab_scope ''b'')))
   \<and> getCurrentStepIndex (ab_scope ''b'') None = 1
   \<and> synchronized (ab_scope ''b'') ab_start
   \<and> currentLocation (reducer (ab_scope ''b'') ab_start (previousStep (JsValue 7))) = ''a''
   \<and> key (steps ab_start ! 0) = ''a''
   \<and> getCurrentStepIndex (ab_scope ''a'') None = 0
   \<and> currentLocation ab_start \<noteq> WIZARD_CANCEL
   \<and> currentLocation (reducer (ab_scope ''a'') ab_start (previousStep (JsValue 7)))
       = ''@Wizard/cancel''
   \<and> useEffect_currentLocation (ab_scope ''a'') (Some (currentLocation ab_start))
        (reducer (ab_scope ''a'') ab_start (previousStep (JsValue 7))) = [onWizardCancel]"
proof -
  have sync: "synchronized (ab_scope step) ab_start" for step
    by (rule ab_synchronized)
  have payload: "\<not> instanceof_Error (JsValue (7::nat))" by simp
  have second: "(0::int) < 1 \<and> 1 < int (length (wizardSteps (ab_scope ''b'')))
      \<and> getCurrentStepIndex (ab_scope ''b'') None = 1"
    by simp
  have first: "getCurrentStepIndex (ab_scope ''a'') None = 0" by simp
  have before: "currentLocation ab_start \<noteq> WIZARD_CANCEL"
    by (simp add: WIZARD_CANCEL_def)
  note inst = retreat_sets_previous_location [OF payload, of 1 _ ab_start "ab_scope ''a''"]
  from inst [of "ab_scope ''b''", THEN conjunct1, THEN mp, OF second]
  have declared: "currentLocation (reducer (ab_scope ''b'') ab_start (previousStep (JsValue 7)))
      = wizardSteps (ab_scope ''b'') ! nat (1 - 1)"
    and registry: "currentLocation (reducer (ab_scope ''b'') ab_start (previousStep (JsValue 7)))
      = key (steps ab_start ! nat (1 - 1))"
    using sync by blast+
  from inst [of "ab_scope ''a''", THEN conjunct2, THEN mp, OF first]
  have cancel: "currentLocation (reducer (ab_scope ''a'') ab_start (previousStep (JsValue 7)))
        = WIZARD_CANCEL"
    and effect: "useEffect_currentLocation (ab_scope ''a'') (Some (currentLocation ab_start))
          (reducer (ab_scope ''a'') ab_start (previousStep (JsValue 7))) = [onWizardCancel]"
    using before by blast+
  have zeroth: "key (steps ab_start ! 0) = ''a''"
    by (simp add: ab_start_eq)
  from declared registry cancel effect zeroth sync payload second first before show ?thesis
    by (simp add: WIZARD_CANCEL_def)
qed

text \<open>
  C7. \<open>nextStep\<close> and \<open>previousStep\<close> with a state as payload keep the length of the
  registry; the step at the index of the step the navigation shows gets the payload as its
  state and keeps its key and label, and every other step is the step it was. When that
  index is no index of the registry, no step changes.
\<close>

theorem transition_overwrites_active_step_only:
  assumes request: "a = nextStep p \<or> a = previousStep p"
    and payload: "\<not> instanceof_Error p"
  shows "length (steps (reducer sc st a)) = length (steps st)
       \<and> (\<forall>j. j < length (steps st) \<longrightarrow>
            steps (reducer sc st a) ! j =
              (if int j = getCurrentStepIndex sc None then (steps st ! j)\<lparr>state := p\<rparr>
               else steps st ! j))"
proof -
  have "steps (reducer sc st a) = store_payload (getCurrentStepIndex sc None) p (steps st)"
    using request payload by (auto simp: nextStep_accepted previousStep_accepted)
  then show ?thesis by (simp add: nth_store_payload)
qed

text \<open>The wizard of three steps, while its second step is shown.\<close>

theorem transition_overwrites_active_step_only_witness:
  "\<not> instanceof_Error (JsValue (7::nat))
   \<and> getCurrentStepIndex (checkout_scope ''payment'') None = 1
   \<and> length (steps (reducer (checkout_scope ''payment'') checkout_start (nextStep (JsValue 7)))) = 3
   \<and> steps (reducer (checkout_scope ''payment'') checkout_start (nextStep (JsValue 7))) ! 0
       = \<lparr>key = ''profile'', state = JsNull, nextButtonIntlKey = ''Next''\<rparr>
   \<and> steps (reducer (checkout_scope ''payment'') checkout_start (nextStep (JsValue 7))) ! 1
       = \<lparr>key = ''payment'', state = JsValue 7, nextButtonIntlKey = ''Next''\<rparr>
   \<and> steps (reducer (checkout_scope ''payment'') checkout_start (nextStep (JsValue 7))) ! 2
       = \<lparr>key = ''confirm'', state = JsNull, nextButtonIntlKey = ''Finish''\<rparr>
   \<and> steps (reducer (checkout_scope ''payment'') checkout_start (previousStep (JsValue 7))) ! 0
       = \<lparr>key = ''profile'', state = JsNull, nextButtonIntlKey = ''Next''\<rparr>
   \<and> steps (reducer (checkout_scope ''payment'') checkout_start (previousStep (JsValue 7))) ! 1
       = \<lparr>key = ''payment'', state = JsValue 7, nextButtonIntlKey = ''Next''\<rparr>"
proof -
  have payload: "\<not> instanceof_Error (JsValue (7::nat))" by simp
  have idx: "getCurrentStepIndex (checkout_scope ''payment'') None = 1" by simp
  let ?next = "steps (reducer (checkout_scope ''payment'') checkout_start (nextStep (JsValue 7)))"
  let ?prev = "steps (reducer (checkout_scope ''payment'') checkout_start (previousStep (JsValue 7)))"
  have n: "length ?next = 3 \<and> ?next ! 0 = steps checkout_start ! 0
      \<and> ?next ! 1 = (steps checkout_start ! 1)\<lparr>state := JsValue 7\<rparr>
      \<and> ?next ! 2 = steps checkout_start ! 2"
    using transition_overwrites_active_step_only
      [of "nextStep (JsValue 7)" "JsValue 7" "checkout_scope ''payment''" checkout_start] payload
    by simp
  have p: "?prev ! 0 = steps checkout_start ! 0
      \<and> ?prev ! 1 = (steps checkout_start ! 1)\<lparr>state := JsValue 7\<rparr>"
    using transition_overwrites_active_step_only
      [of "previousStep (JsValue 7)" "JsValue 7" "checkout_scope ''payment''" checkout_start] payload
    by simp
  show ?thesis
    using n p payload idx by (simp add: checkout_start_eq)
qed

text \<open>
  C8. A request whose payload is an \<^verbatim>\<open>Error\<close>, or whose type the switch does not know,
  leaves the state as it is: the reducer returns its argument. The current location is
  then the one of the render before, so the effect on \<^verbatim>\<open>[currentLocation]\<close> does not
  run and no callback is invoked, in whatever scope the next render happens.
\<close>

theorem rejected_request_changes_nothing:
  assumes "rejected a"
  shows "reducer sc st a = st
       \<and> useEffect_currentLocation sc' (Some (currentLocation st)) (reducer sc st a) = []"
proof -
  have "reducer sc st a = st"
    using assms by (cases a) (simp_all add: rejected_def reducer_def)
  then show ?thesis by (simp add: useEffect_currentLocation_def)
qed

text \<open>An error as payload of \<open>nextStep\<close>, and a request of an unknown type.\<close>

theorem rejected_request_changes_nothing_witness:
  "rejected (nextStep (JsError ''boom'') :: nat WizardAction)
   \<and> rejected (unhandled ''@Wizard/steps/jump'' (JsValue 7) :: nat WizardAction)
   \<and> reducer (checkout_scope ''profile'') checkout_start (nextStep (JsError ''boom''))
       = checkout_start
   \<and> useEffect_currentLocation (checkout_scope ''profile'') (Some (currentLocation checkout_start))
        (reducer (checkout_scope ''profile'') checkout_start (nextStep (JsError ''boom''))) = []
   \<and> reducer (checkout_scope ''profile'') checkout_start
        (unhandled ''@Wizard/steps/jump'' (JsValue 7)) = checkout_start"
proof -
  have r1: "rejected (nextStep (JsError ''boom'') :: nat WizardAction)"
    by (simp add: rejected_def)
  have r2: "rejected (unhandled ''@Wizard/steps/jump'' (JsValue 7) :: nat WizardAction)"
    by (simp add: rejected_def)
  from rejected_request_changes_nothing [OF r1, of "checkout_scope ''profile''" checkout_start
      "checkout_scope ''profile''"]
    rejected_request_changes_nothing [OF r2, of "checkout_scope ''profile''" checkout_start
      "checkout_scope ''profile''"] r1 r2
  show ?thesis by blast
qed

text \<open>
  C10. When the declared list of steps is not empty and the navigation shows no step of it
  (the index is \<open>-1\<close>), \<open>nextStep\<close> with a state as payload sets the current location
  to the first declared key and stores the payload nowhere; \<open>previousStep\<close> sets the
  current location to the sentinel \<open>WIZARD_CANCEL\<close>, and stores the payload nowhere
  either.
\<close>

theorem unmatched_location_transitions:
  assumes steps_given: "wizardSteps sc \<noteq> []"
    and unmatched: "getCurrentStepIndex sc None = - 1"
    and payload: "\<not> instanceof_Error p"
  shows "currentLocation (reducer sc st (nextStep p)) = hd (wizardSteps sc)
       \<and> steps (reducer sc st (nextStep p)) = steps st
       \<and> currentLocation (reducer sc st (previousStep p)) = WIZARD_CANCEL
       \<and> steps (reducer sc st (previousStep p)) = steps st"
proof -
  from steps_given have "getNextPage sc = hd (wizardSteps sc)"
    using unmatched by (cases "wizardSteps sc") (simp_all add: getNextPage_def)
  moreover have "getPreviousPage sc = WIZARD_CANCEL"
    using unmatched by (simp add: getPreviousPage_def)
  ultimately show ?thesis
    using payload unmatched by (simp add: nextStep_accepted previousStep_accepted)
qed

text \<open>
  The wizard of three steps while the navigation shows \<^verbatim>\<open>/wizard/review\<close>: advancing
  from the location \<^verbatim>\<open>confirm\<close> leads back to \<^verbatim>\<open>profile\<close>.
\<close>

theorem unmatched_location_transitions_witness:
  "wizardSteps (checkout_scope ''review'') \<noteq> []
   \<and> getCurrentStepIndex (checkout_scope ''review'') None = - 1
   \<and> \<not> instanceof_Error (JsValue (7::nat))
   \<and> reducer (checkout_scope ''review'') (checkout_start\<lparr>currentLocation := ''confirm''\<rparr>)
        (nextStep (JsValue 7)) = checkout_start
   \<and> reducer (checkout_scope ''review'') checkout_start (previousStep (JsValue 7))
       = checkout_start\<lparr>currentLocation := ''@Wizard/cancel''\<rparr>"
proof -
  have steps_given: "wizardSteps (checkout_scope ''review'') \<noteq> []"
    by (simp add: checkout_scope_def)
  have unmatched: "getCurrentStepIndex (checkout_scope ''review'') None = - 1" by simp
  have payload: "\<not> instanceof_Error (JsValue (7::nat))" by simp
  from unmatched_location_transitions [OF steps_given unmatched payload,
      of "checkout_start\<lparr>currentLocation := ''confirm''\<rparr>"]
    unmatched_location_transitions [OF steps_given unmatched payload, of checkout_start]
    steps_given unmatched payload
  show ?thesis
    by (simp add: checkout_start_eq checkout_scope_def WIZARD_CANCEL_def WizardState.equality)
qed

text \<open>
  C3. The claim: in every state reachable through \<open>nextStep\<close>, \<open>previousStep\<close> and
  \<open>reset\<close>, a current location that is a step key (not empty, neither sentinel) is the key
  of a step of the registry.

  \<open>reset\<close> is dispatched by the effect on \<^verbatim>\<open>[wizardSteps]\<close>, after the render with the
  new array, and \<open>getNextPage\<close> and \<open>getPreviousPage\<close> read the array of the render. The
  wizard of the steps \<^verbatim>\<open>a\<close> and \<^verbatim>\<open>b\<close>, mounted and reset, renders with the new keys
  \<^verbatim>\<open>a\<close>, \<^verbatim>\<open>c\<close> and reduces \<open>nextStep\<close> before the effect: the current location is
  \<^verbatim>\<open>c\<close>, and the registry has the steps \<^verbatim>\<open>a\<close> and \<^verbatim>\<open>b\<close>. The component has a branch
  for a current location that is the key of no step: it renders the placeholder.
\<close>

theorem location_dangles_counterexample:
  "is_step_location (currentLocation (wstate (run (ab_scope ''a'')
      [ResetEffect, StepsChanged [''a'', ''c''], onNext (JsValue (7::nat))])))
   \<and> currentLocation (wstate (run (ab_scope ''a'')
      [ResetEffect, StepsChanged [''a'', ''c''], onNext (JsValue (7::nat))])) = ''c''
   \<and> map key (steps (wstate (run (ab_scope ''a'')
      [ResetEffect, StepsChanged [''a'', ''c''], onNext (JsValue (7::nat))]))) = [''a'', ''b'']
   \<and> currentLocation (wstate (run (ab_scope ''a'')
      [ResetEffect, StepsChanged [''a'', ''c''], onNext (JsValue (7::nat))]))
      \<notin> set (map key (steps (wstate (run (ab_scope ''a'')
      [ResetEffect, StepsChanged [''a'', ''c''], onNext (JsValue (7::nat))]))))"
  by (simp add: run_def mount_def is_step_location_def wizard_eval)

text \<open>
  C3, as the code has it: after mounting and any sequence of events (renders with new
  step keys, the effect on \<^verbatim>\<open>[wizardSteps]\<close> and its \<open>reset\<close>, moves of the navigation,
  new label keys, \<open>nextStep\<close> and \<open>previousStep\<close> with any payload), when the effect has
  run for the array of step keys of the last render, a current location that is a step key
  is the key of a step of the registry. And in every state and scope, \<open>nextStep\<close> with a
  state as payload leads to the sentinel \<open>WIZARD_COMPLETE\<close> or to a declared key, and
  \<open>previousStep\<close> to the sentinel \<open>WIZARD_CANCEL\<close> or to a declared key: a location that
  is the key of no step of the registry comes only from a request reduced between a render
  with new step keys and the effect of that render.
\<close>

theorem location_never_dangles:
  fixes st :: "'a WizardState" and evs :: "'a event list"
  shows "(\<not> resetPending (run sc evs)
        \<and> is_step_location (currentLocation (wstate (run sc evs))) \<longrightarrow>
          currentLocation (wstate (run sc evs)) \<in> set (map key (steps (wstate (run sc evs)))))
       \<and> (\<not> instanceof_Error p \<longrightarrow>
            (currentLocation (reducer sc' st (nextStep p)) = WIZARD_COMPLETE
               \<or> currentLocation (reducer sc' st (nextStep p)) \<in> set (wizardSteps sc'))
          \<and> (currentLocation (reducer sc' st (previousStep p)) = WIZARD_CANCEL
               \<or> currentLocation (reducer sc' st (previousStep p)) \<in> set (wizardSteps sc')))"
proof (intro conjI impI)
  assume "\<not> resetPending (run sc evs)
      \<and> is_step_location (currentLocation (wstate (run sc evs)))"
  with well_located_run [of sc evs]
  show "currentLocation (wstate (run sc evs)) \<in> set (map key (steps (wstate (run sc evs))))"
    by (simp add: well_located_def synchronized_def)
next
  assume "\<not> instanceof_Error p"
  then show "currentLocation (reducer sc' st (nextStep p)) = WIZARD_COMPLETE
      \<or> currentLocation (reducer sc' st (nextStep p)) \<in> set (wizardSteps sc')"
    using getNextPage_cases [of sc'] by (simp add: nextStep_accepted)
next
  assume "\<not> instanceof_Error p"
  then show "currentLocation (reducer sc' st (previousStep p)) = WIZARD_CANCEL
      \<or> currentLocation (reducer sc' st (previousStep p)) \<in> set (wizardSteps sc')"
    using getPreviousPage_cases [of sc'] by (simp add: previousStep_accepted)
qed

text \<open>
  The wizard of three steps, mounted, reset and advanced twice: the location
  \<^verbatim>\<open>confirm\<close> is a key of the registry. In the render with the keys \<^verbatim>\<open>a\<close>, \<^verbatim>\<open>c\<close> above,
  \<open>nextStep\<close> leads to the declared key \<^verbatim>\<open>c\<close>.
\<close>

theorem location_never_dangles_witness:
  "\<not> resetPending (run (checkout_scope ''profile'')
       [ResetEffect, onNext (JsValue (7::nat)), Navigated ''/wizard/payment'' ''/wizard'',
        onNext (JsValue 8)])
   \<and> currentLocation (wstate (run (checkout_scope ''profile'')
       [ResetEffect, onNext (JsValue (7::nat)), Navigated ''/wizard/payment'' ''/wizard'',
        onNext (JsValue 8)])) = ''confirm''
   \<and> is_step_location ''confirm''
   \<and> ''confirm'' \<in> set (map key (steps (wstate (run (checkout_scope ''profile'')
       [ResetEffect, onNext (JsValue (7::nat)), Navigated ''/wizard/payment'' ''/wizard'',
        onNext (JsValue 8)]))))
   \<and> \<not> instanceof_Error (JsValue (7::nat))
   \<and> currentLocation (reducer (scope ac_window) (wstate ac_window) (nextStep (JsValue 7)))
       \<in> set (wizardSteps (scope ac_window))
   \<and> currentLocation (reducer (scope ac_window) (wstate ac_window) (previousStep (JsValue 7)))
       = WIZARD_CANCEL"
proof -
  let ?evs = "[ResetEffect, onNext (JsValue (7::nat)), Navigated ''/wizard/payment'' ''/wizard'',
        onNext (JsValue 8)]"
  let ?c = "run (checkout_scope ''profile'') ?evs"
  have ran: "\<not> resetPending ?c"
    by (simp add: run_def mount_def)
  have loc: "currentLocation (wstate ?c) = ''confirm''"
    by (simp add: run_def mount_def wizard_eval)
  have step: "is_step_location ''confirm''"
    by (simp add: is_step_location_def WIZARD_COMPLETE_def WIZARD_CANCEL_def)
  have payload: "\<not> instanceof_Error (JsValue (7::nat))" by simp
  note inst = location_never_dangles [of "checkout_scope ''profile''" ?evs "JsValue 7"
      "scope ac_window" "wstate ac_window"]
  from ran loc step have hyp: "\<not> resetPending ?c \<and> is_step_location (currentLocation (wstate ?c))"
    by simp
  from inst [THEN conjunct1, THEN mp, OF hyp]
  have registry: "''confirm'' \<in> set (map key (steps (wstate ?c)))"
    unfolding loc .
  from inst [THEN conjunct2, THEN mp, OF payload]
  have next_cases: "currentLocation
        (reducer (scope ac_window) (wstate ac_window) (nextStep (JsValue 7))) = WIZARD_COMPLETE
      \<or> currentLocation (reducer (scope ac_window) (wstate ac_window) (nextStep (JsValue 7)))
        \<in> set (wizardSteps (scope ac_window))"
    and prev_cases: "currentLocation
        (reducer (scope ac_window) (wstate ac_window) (previousStep (JsValue 7))) = WIZARD_CANCEL
      \<or> currentLocation (reducer (scope ac_window) (wstate ac_window) (previousStep (JsValue 7)))
        \<in> set (wizardSteps (scope ac_window))"
    by blast+
  have "currentLocation (reducer (scope ac_window) (wstate ac_window) (nextStep (JsValue 7)))
      \<noteq> WIZARD_COMPLETE"
    by (simp add: ac_window_eq wizard_eval)
  with next_cases
  have declared: "currentLocation
        (reducer (scope ac_window) (wstate ac_window) (nextStep (JsValue 7)))
      \<in> set (wizardSteps (scope ac_window))"
    by blast
  have "currentLocation (reducer (scope ac_window) (wstate ac_window) (previousStep (JsValue 7)))
      \<notin> set (wizardSteps (scope ac_window))"
    by (simp add: ac_window_eq wizard_eval)
  with prev_cases
  have cancel: "currentLocation
        (reducer (scope ac_window) (wstate ac_window) (previousStep (JsValue 7)))
      = WIZARD_CANCEL"
    by blast
  from ran loc step registry payload declared cancel show ?thesis by blast
qed

text \<open>
  C2. The claim: \<open>useWizardContext\<close> called with no enclosing provider throws. The code
  tests \<^verbatim>\<open>context === null\<close>, but the default value of the context is an empty
  object, so the test fails and the hook returns that object.
\<close>

theorem useWizardContext_outside_provider:
  "useWizardContext None = Inr EmptyObject"
  by (simp add: useWizardContext_def useContext_def WizardContext_default_def)

text \<open>
  C9. The claim: when the current location becomes the sentinel \<open>WIZARD_COMPLETE\<close>, the
  completion callback is invoked once with a mapping from every step key of the registry
  to the state stored for that step; for the steps \<^verbatim>\<open>a\<close> and \<^verbatim>\<open>b\<close> it receives
  \<^verbatim>\<open>{a: stateA, b: stateB}\<close>. The documentation of \<^verbatim>\<open>onWizardComplete\<close> says the same:
  its argument is a dictionary with the state associated with the step keys.

  The callback is invoked once (\<open>completion_effect\<close>), the scenario of \<^verbatim>\<open>a\<close> and \<^verbatim>\<open>b\<close>
  is as claimed (\<open>completion_scenario_ab\<close>), and every key but one has its entry
  (\<open>dom_completeState\<close>, \<open>completeState_distinct\<close>). The object is filled by assignment,
  though, and the assignment to the key \<^verbatim>\<open>__proto__\<close> stores no entry: a wizard whose
  first step has that key completes with an object that has the entry of \<^verbatim>\<open>b\<close> only,
  the state of the first step having gone to the setter of the prototype.
\<close>

theorem completion_payload_proto_key:
  "map key (steps proto_done) = [''__proto__'', ''b'']
   \<and> map state (steps proto_done) = [JsValue 1, JsValue 2]
   \<and> currentLocation proto_done = WIZARD_COMPLETE
   \<and> useEffect_currentLocation (proto_scope ''b'') (Some ''b'') proto_done =
       [onWizardComplete
          \<lparr>own_properties = [''b'' \<mapsto> JsValue 2], proto_setter_args = [JsValue 1]\<rparr>]
   \<and> own_properties (completeState (steps proto_done)) ''__proto__'' = None"
  by (simp add: proto_done_eq wizard_eval)





end
